theory Spec2Isabelle
  imports Complex_Main "HOL-Library.AList"
begin

section \<open>Data model of \<open>super_process.py\<close>\<close>

text \<open>
  The embedding follows the Python module class by class. Conventions:
  \<^item> Python \<open>int\<close> is \<open>int\<close>; Python \<open>float\<close> is idealised as \<open>real\<close> (no rounding, no
    infinities, no NaN), so \<open>0.1\<close> is the rational one tenth;
  \<^item> an exception is a value of \<open>exn\<close>; a call that may raise returns \<open>exn + 'x\<close> together
    with the state it leaves behind (the mutations made before the raise stay);
  \<^item> a method that mutates \<open>self\<close> takes the object and returns the updated object;
  \<^item> the methods run one at a time: the locks only serialise writes of \<open>state\<close>, and the
    interleaving of a background thread with its callers is not part of the model; where
    what a method does depends on the thread that calls it, the caller is a parameter.
\<close>

datatype ProcessState = IDLE | RUNNING | PAUSED | STOPPED | OPTIMIZING | ERROR


text \<open>
  The exceptions (subclasses of \<open>Exception\<close>) the module raises itself, and any other one
  a task function may raise, by class name, message and truth value. \<open>truth_value e\<close> is
  Python's \<open>bool(e)\<close>: an exception instance is true unless its class defines \<open>__bool__\<close>
  or \<open>__len__\<close> to say otherwise, which only a class written by the user does.
\<close>

datatype exn =
    ZeroDivisionError
  | ValueError string
  | RuntimeError string
  | OtherException string string bool

fun truth_value :: "exn \<Rightarrow> bool" where
  "truth_value ZeroDivisionError = True"
| "truth_value (ValueError msg) = True"
| "truth_value (RuntimeError msg) = True"
| "truth_value (OtherException cls msg b) = b"

record 'v ProcessMetrics =
  execution_count :: int
  total_runtime :: real
  average_runtime :: real
  success_count :: int
  error_count :: int
  optimization_level :: real
  last_execution_time :: real
  metadata :: "(string \<times> 'v) list"

text \<open>The dataclass defaults: \<open>ProcessMetrics()\<close>.\<close>

definition ProcessMetrics_init :: "'v ProcessMetrics" where
  "ProcessMetrics_init =
     \<lparr> execution_count = 0, total_runtime = 0, average_runtime = 0, success_count = 0,
       error_count = 0, optimization_level = 1, last_execution_time = 0, metadata = [] \<rparr>"

text \<open>
  \<open>update_execution\<close> assigns field by field. The division raises \<open>ZeroDivisionError\<close> when
  the incremented count is zero; the two assignments before it have then already happened.
\<close>

definition update_execution ::
  "'v ProcessMetrics \<Rightarrow> real \<Rightarrow> bool \<Rightarrow> (exn + unit) \<times> 'v ProcessMetrics" where
  "update_execution m runtime success =
     (let m1 = m\<lparr>execution_count := execution_count m + 1\<rparr>;
          m2 = m1\<lparr>total_runtime := total_runtime m1 + runtime\<rparr>
      in if execution_count m2 = 0 then (Inl ZeroDivisionError, m2)
         else
           let m3 = m2\<lparr>average_runtime := total_runtime m2 / of_int (execution_count m2)\<rparr>;
               m4 = m3\<lparr>last_execution_time := runtime\<rparr>
           in if success then (Inr (), m4\<lparr>success_count := success_count m4 + 1\<rparr>)
              else (Inr (), m4\<lparr>error_count := error_count m4 + 1\<rparr>))"

text \<open>
  The handle of the background thread of continuous mode: the interval and the arguments
  its closure captured, whether \<open>start()\<close> has succeeded on it, and whether the thread is
  still alive.
\<close>

record 'a Thread =
  interval :: real
  thread_args :: 'a
  started :: bool
  alive :: bool

text \<open>
  A task function is opaque. It is called with the arguments of \<open>execute\<close> in some state
  \<open>'w\<close> of everything it can reach, and either raises or returns a result; the \<open>real\<close> next
  to the result is the wall-clock difference \<open>time.time() - func_start_time\<close> that
  \<open>execute\<close> measures around the call.
\<close>

type_synonym ('a, 'w, 'r) task = "'a \<Rightarrow> 'w \<Rightarrow> (exn + 'r \<times> real) \<times> 'w"

record ('a, 'w, 'r, 'v) SuperProcess =
  name :: string
  process_function :: "('a, 'w, 'r) task"
  auto_optimize :: bool
  max_retries :: int
  optimization_threshold :: real
  state :: ProcessState
  metrics :: "'v ProcessMetrics"
  stop_flag :: bool
  pause_flag :: bool
  thread :: "'a Thread option"

definition SuperProcess_init ::
  "string \<Rightarrow> ('a, 'w, 'r) task \<Rightarrow> bool \<Rightarrow> int \<Rightarrow> real \<Rightarrow> ('a, 'w, 'r, 'v) SuperProcess" where
  "SuperProcess_init nm f ao mr thr =
     \<lparr> name = nm, process_function = f, auto_optimize = ao, max_retries = mr,
       optimization_threshold = thr, state = IDLE, metrics = ProcessMetrics_init,
       stop_flag = False, pause_flag = False, thread = None \<rparr>"

section \<open>The optimization trigger and hook\<close>

definition should_optimize :: "('a, 'w, 'r, 'v) SuperProcess \<Rightarrow> bool" where
  "should_optimize s =
     (if execution_count (metrics s) < 10 then False
      else
        let success_rate =
              real_of_int (success_count (metrics s)) / real_of_int (execution_count (metrics s))
        in success_rate < optimization_threshold s)"

definition optimize :: "('a, 'w, 'r, 'v) SuperProcess \<Rightarrow> ('a, 'w, 'r, 'v) SuperProcess" where
  "optimize s =
     (let previous_state = state s;
          s1 = s\<lparr>state := OPTIMIZING\<rparr>;
          s2 = s1\<lparr>metrics := (metrics s1)\<lparr>optimization_level := optimization_level (metrics s1) + 0.1\<rparr>\<rparr>
      in s2\<lparr>state := previous_state\<rparr>)"

section \<open>One-shot execution with retries\<close>

text \<open>
  What \<open>execute\<close> does to the outside, in order: a call of the task function, or a
  \<open>time.sleep\<close> of the given number of seconds.
\<close>

datatype event = Invoke | Sleep real

text \<open>
  The body of the \<open>try\<close> block, one attempt: the optimization check, the call, and on a
  result the metrics update and the return to \<open>IDLE\<close>. \<open>Inl e\<close> is an exception that the
  \<open>except Exception\<close> clause catches, \<open>Inr r\<close> is \<open>return result\<close>.
\<close>

definition attempt ::
  "'a \<Rightarrow> ('a, 'w, 'r, 'v) SuperProcess \<Rightarrow> 'w \<Rightarrow> (exn + 'r) \<times> ('a, 'w, 'r, 'v) SuperProcess \<times> 'w" where
  "attempt args s w =
     (let s1 = (if auto_optimize s \<and> should_optimize s then optimize s else s)
      in case process_function s1 args w of
           (Inl e, w') \<Rightarrow> (Inl e, s1, w')
         | (Inr (result, func_runtime), w') \<Rightarrow>
             (case update_execution (metrics s1) func_runtime True of
                (Inl e, m') \<Rightarrow> (Inl e, s1\<lparr>metrics := m'\<rparr>, w')
              | (Inr u, m') \<Rightarrow> (Inr result, s1\<lparr>metrics := m', state := IDLE\<rparr>, w')))"

text \<open>
  The code after the loop. Its test \<open>if last_error:\<close> is a truth test: it fails when
  \<open>last_error\<close> is \<open>None\<close> (no attempt was made) and also when the last exception is an
  instance whose truth value is false. The function then falls off its end and returns
  \<open>None\<close>, which is \<open>Inr None\<close> here.
\<close>

definition exhausted ::
  "exn option \<Rightarrow> ('a, 'w, 'r, 'v) SuperProcess \<Rightarrow> (exn + 'r option) \<times> ('a, 'w, 'r, 'v) SuperProcess" where
  "exhausted last_error s =
     (case last_error of
        None \<Rightarrow> (Inr None, s)
      | Some e \<Rightarrow>
          if truth_value e then
            (case update_execution (metrics s) 0.0 False of
               (Inl z, m') \<Rightarrow> (Inl z, s\<lparr>metrics := m'\<rparr>)
             | (Inr u, m') \<Rightarrow> (Inl e, s\<lparr>metrics := m', state := ERROR\<rparr>))
          else (Inr None, s))"

function execute_loop ::
  "'a \<Rightarrow> int \<Rightarrow> exn option \<Rightarrow> event list \<Rightarrow> ('a, 'w, 'r, 'v) SuperProcess \<Rightarrow> 'w
     \<Rightarrow> (exn + 'r option) \<times> event list \<times> ('a, 'w, 'r, 'v) SuperProcess \<times> 'w" where
  "execute_loop args retries last_error tr s w =
     (if retries < max_retries s then
        (case attempt args s w of
           (Inr result, s', w') \<Rightarrow> (Inr (Some result), tr @ [Invoke], s', w')
         | (Inl e, s', w') \<Rightarrow>
             (let retries' = retries + 1;
                  tr' = tr @ [Invoke] @
                        (if retries' < max_retries s' then [Sleep (0.1 * real_of_int retries')] else [])
              in execute_loop args retries' (Some e) tr' s' w'))
      else (case exhausted last_error s of (res, s') \<Rightarrow> (res, tr, s', w)))"
  by pat_completeness auto
termination
  by (relation "measure (\<lambda>(args, retries, last_error, tr, s, w). nat (max_retries s - retries))")
     (auto simp: attempt_def optimize_def Let_def split: prod.splits sum.splits if_splits)

declare execute_loop.simps [simp del]

definition execute ::
  "'a \<Rightarrow> ('a, 'w, 'r, 'v) SuperProcess \<Rightarrow> 'w
     \<Rightarrow> (exn + 'r option) \<times> event list \<times> ('a, 'w, 'r, 'v) SuperProcess \<times> 'w" where
  "execute args s w = execute_loop args 0 None [] (s\<lparr>state := RUNNING\<rparr>) w"

section \<open>Continuous mode, pause, resume, stop\<close>

text \<open>
  \<open>start_continuous\<close> refuses a second live thread, clears both flags, stores a new
  thread object and starts it. \<open>Thread.start()\<close> raises \<open>RuntimeError\<close> when the system
  cannot start another thread (\<open>can_start\<close> is false); the thread object, not started, is
  then already stored in \<open>_thread\<close>. One pass of the loop \<open>_run_continuous\<close> of a live thread
  is \<open>run_continuous_cycle\<close>: the loop ends when the stop flag is set; otherwise it calls
  \<open>execute\<close> unless paused, drops the exception of a failed cycle after logging it, and
  sleeps for the interval.
\<close>

definition start_continuous ::
  "bool \<Rightarrow> real \<Rightarrow> 'a \<Rightarrow> ('a, 'w, 'r, 'v) SuperProcess
     \<Rightarrow> (exn + unit) \<times> ('a, 'w, 'r, 'v) SuperProcess" where
  "start_continuous can_start ival args s =
     (if (case thread s of None \<Rightarrow> False | Some t \<Rightarrow> alive t)
      then (Inl (RuntimeError (''Process '' @ name s @ '' is already running'')), s)
      else
        let s1 = s\<lparr>stop_flag := False, pause_flag := False\<rparr>;
            t = \<lparr>interval = ival, thread_args = args, started = False, alive = False\<rparr>;
            s2 = s1\<lparr>thread := Some t\<rparr>
        in if can_start
           then (Inr (), s2\<lparr>thread := Some (t\<lparr>started := True, alive := True\<rparr>)\<rparr>)
           else (Inl (RuntimeError ''can't start new thread''), s2))"

definition run_continuous_cycle ::
  "('a, 'w, 'r, 'v) SuperProcess \<Rightarrow> 'w \<Rightarrow> event list \<times> ('a, 'w, 'r, 'v) SuperProcess \<times> 'w" where
  "run_continuous_cycle s w =
     (case thread s of
        None \<Rightarrow> ([], s, w)
      | Some t \<Rightarrow>
          if \<not> alive t then ([], s, w)
          else if stop_flag s then ([], s\<lparr>thread := Some (t\<lparr>alive := False\<rparr>)\<rparr>, w)
          else if \<not> pause_flag s then
            (case execute (thread_args t) s w of
               (res, tr, s', w') \<Rightarrow> (tr @ [Sleep (interval t)], s', w'))
          else ([Sleep (interval t)], s, w))"

definition pause :: "('a, 'w, 'r, 'v) SuperProcess \<Rightarrow> ('a, 'w, 'r, 'v) SuperProcess" where
  "pause s = (s\<lparr>pause_flag := True\<rparr>)\<lparr>state := PAUSED\<rparr>"

definition resume :: "('a, 'w, 'r, 'v) SuperProcess \<Rightarrow> ('a, 'w, 'r, 'v) SuperProcess" where
  "resume s = (s\<lparr>pause_flag := False\<rparr>)\<lparr>state := RUNNING\<rparr>"

text \<open>
  Which thread calls a method: the supervisor's own background thread (a task function
  that reaches its supervisor runs there), or any other thread.
\<close>

datatype caller = OwnThread | OtherThread

text \<open>
  \<open>Thread.join(timeout=5.0)\<close> raises \<open>RuntimeError\<close> on a thread that was not started, and
  on the calling thread itself, in this order. Otherwise it returns when the thread has
  ended or when the five seconds are over, whichever comes first; \<open>exited\<close> tells which of
  the two happened.
\<close>

definition thread_join :: "caller \<Rightarrow> bool \<Rightarrow> 'a Thread \<Rightarrow> exn + 'a Thread" where
  "thread_join c exited t =
     (if \<not> started t then Inl (RuntimeError ''cannot join thread before it is started'')
      else if c = OwnThread then Inl (RuntimeError ''cannot join current thread'')
      else Inr (t\<lparr>alive := alive t \<and> \<not> exited\<rparr>))"

text \<open>
  \<open>stop\<close> sets the stop flag, joins the thread if there is one, and only then sets the
  state: an exception of \<open>join\<close> leaves the state as it was.
\<close>

definition stop ::
  "caller \<Rightarrow> bool \<Rightarrow> ('a, 'w, 'r, 'v) SuperProcess
     \<Rightarrow> (exn + unit) \<times> ('a, 'w, 'r, 'v) SuperProcess" where
  "stop c exited s =
     (let s1 = s\<lparr>stop_flag := True\<rparr>
      in case thread s1 of
           None \<Rightarrow> (Inr (), s1\<lparr>state := STOPPED\<rparr>)
         | Some t \<Rightarrow>
             (case thread_join c exited t of
                Inl e \<Rightarrow> (Inl e, s1)
              | Inr t' \<Rightarrow> (Inr (), (s1\<lparr>thread := Some t'\<rparr>)\<lparr>state := STOPPED\<rparr>)))"

definition get_metrics :: "('a, 'w, 'r, 'v) SuperProcess \<Rightarrow> 'v ProcessMetrics" where
  "get_metrics s = metrics s"


definition reset_metrics :: "('a, 'w, 'r, 'v) SuperProcess \<Rightarrow> ('a, 'w, 'r, 'v) SuperProcess" where
  "reset_metrics s = s\<lparr>metrics := ProcessMetrics_init\<rparr>"

section \<open>The manager\<close>

text \<open>
  \<open>SuperProcessManager.processes\<close> is a Python dict: an association list in insertion
  order, read with \<open>map_of\<close> and written with \<open>AList.update\<close> (which replaces the value of a
  key in place and appends a new key at the end, as a dict does). The dict holds
  references; here an entry is the registered object as it currently is.
\<close>

record ('a, 'w, 'r, 'v) SuperProcessManager =
  processes :: "(string \<times> ('a, 'w, 'r, 'v) SuperProcess) list"

definition SuperProcessManager_init :: "('a, 'w, 'r, 'v) SuperProcessManager" where
  "SuperProcessManager_init = \<lparr> processes = [] \<rparr>"

definition register ::
  "('a, 'w, 'r, 'v) SuperProcessManager \<Rightarrow> ('a, 'w, 'r, 'v) SuperProcess
     \<Rightarrow> (exn + unit) \<times> ('a, 'w, 'r, 'v) SuperProcessManager" where
  "register mgr process =
     (if name process \<in> fst ` set (processes mgr)
      then (Inl (ValueError (''Process '' @ name process @ '' already registered'')), mgr)
      else (Inr (), mgr\<lparr>processes := AList.update (name process) process (processes mgr)\<rparr>))"

definition get_process ::
  "('a, 'w, 'r, 'v) SuperProcessManager \<Rightarrow> string \<Rightarrow> ('a, 'w, 'r, 'v) SuperProcess option" where
  "get_process mgr nm = map_of (processes mgr) nm"

text \<open>The report of \<open>get_summary\<close>: one entry per process, and the number of processes.\<close>

record process_summary =
  state_value :: string
  executions :: int
  success_rate :: real



section \<open>Sequences of operations\<close>

text \<open>
  The operations on a supervisor: the public methods, one pass of the background loop of
  continuous mode, and the optimization hook. Each runs to its end before the next
  starts; an operation that raises leaves the supervisor as it was at the raise.
  \<open>run_operations\<close> applies a sequence of them, first to last.
\<close>

datatype 'a operation =
    Execute 'a
  | StartContinuous bool real 'a
  | ContinuousCycle
  | Pause
  | Resume
  | Stop caller bool
  | ResetMetrics
  | Optimize

fun apply_operation ::
  "'a operation \<Rightarrow> ('a, 'w, 'r, 'v) SuperProcess \<times> 'w \<Rightarrow> ('a, 'w, 'r, 'v) SuperProcess \<times> 'w" where
  "apply_operation (Execute args) (s, w) = (case execute args s w of (res, tr, s', w') \<Rightarrow> (s', w'))"
| "apply_operation (StartContinuous can_start ival args) (s, w) =
     (snd (start_continuous can_start ival args s), w)"
| "apply_operation ContinuousCycle (s, w) = (case run_continuous_cycle s w of (tr, s', w') \<Rightarrow> (s', w'))"
| "apply_operation Pause (s, w) = (pause s, w)"
| "apply_operation Resume (s, w) = (resume s, w)"
| "apply_operation (Stop c exited) (s, w) = (snd (stop c exited s), w)"
| "apply_operation ResetMetrics (s, w) = (reset_metrics s, w)"
| "apply_operation Optimize (s, w) = (optimize s, w)"

definition run_operations ::
  "'a operation list \<Rightarrow> ('a, 'w, 'r, 'v) SuperProcess \<times> 'w \<Rightarrow> ('a, 'w, 'r, 'v) SuperProcess \<times> 'w" where
  "run_operations ops c = foldl (\<lambda>c op. apply_operation op c) c ops"

text \<open>
  The invariant of the metrics: the count is not negative, it is the sum of the successes
  and the errors, and once something was counted the average is the total divided by the
  count.
\<close>

definition metrics_ok :: "'v ProcessMetrics \<Rightarrow> bool" where
  "metrics_ok m =
     (0 \<le> execution_count m \<and> execution_count m = success_count m + error_count m
      \<and> (if 0 < execution_count m
         then average_runtime m = total_runtime m / real_of_int (execution_count m) else True))"

section \<open>The environment of \<open>execute\<close>\<close>

text \<open>
  How a task function behaves over successive calls with the same arguments:
  \<open>world_after f args w i\<close> is the state of its surroundings after \<open>i\<close> calls starting from
  \<open>w\<close>, and \<open>outcome f args w i\<close> is what call number \<open>i + 1\<close> does. \<open>invocations\<close> counts
  the calls of the task function in a trace.
\<close>

fun world_after :: "('a, 'w, 'r) task \<Rightarrow> 'a \<Rightarrow> 'w \<Rightarrow> nat \<Rightarrow> 'w" where
  "world_after f args w 0 = w"
| "world_after f args w (Suc i) = snd (f args (world_after f args w i))"

definition outcome :: "('a, 'w, 'r) task \<Rightarrow> 'a \<Rightarrow> 'w \<Rightarrow> nat \<Rightarrow> exn + 'r \<times> real" where
  "outcome f args w i = fst (f args (world_after f args w i))"

definition invocations :: "event list \<Rightarrow> nat" where
  "invocations tr = length (filter (\<lambda>e. e = Invoke) tr)"

text \<open>
  \<open>level_only s s'\<close>: the object \<open>s'\<close> is \<open>s\<close> except possibly for
  \<open>metrics.optimization_level\<close>, which is all the optimization hook may change.
\<close>

definition level_only ::
  "('a, 'w, 'r, 'v) SuperProcess \<Rightarrow> ('a, 'w, 'r, 'v) SuperProcess \<Rightarrow> bool" where
  "level_only s s' =
     (\<exists>l. s' = s\<lparr>metrics := (metrics s)\<lparr>optimization_level := l\<rparr>\<rparr>)"

subsection \<open>The task functions of the test suite\<close>

text \<open>
  \<open>failing_func\<close> of \<open>test_retry_mechanism\<close> counts its calls and raises on the first two;
  \<open>always_fails\<close> of \<open>test_error_handling\<close> raises on every call. The state of their
  surroundings is the call counter; the measured runtime of a successful call is fixed
  at a quarter of a second.
\<close>

definition failing_func :: "(unit, nat, string) task" where
  "failing_func args attempt_count =
     (let c = attempt_count + 1
      in if c < 3 then (Inl (ValueError ''Simulated failure''), c)
         else (Inr (''success'', 0.25), c))"

definition retry_process :: "(unit, nat, string, unit) SuperProcess" where
  "retry_process = SuperProcess_init ''retry_process'' failing_func True 3 0.8"

definition always_fails :: "(unit, nat, string) task" where
  "always_fails args calls = (Inl (RuntimeError ''Always fails''), calls + 1)"

definition error_process :: "(unit, nat, string, unit) SuperProcess" where
  "error_process = SuperProcess_init ''error_process'' always_fails True 2 0.8"

text \<open>\<open>timed_func\<close> of \<open>test_metrics_tracking\<close> always returns, measured at a hundredth of a second.\<close>

definition timed_func :: "(unit, nat, string) task" where
  "timed_func args calls = (Inr (''done'', 0.01), calls + 1)"

text \<open>
  Further concrete inputs: a task function that always raises an exception whose truth
  value is false (an instance of \<open>class Quiet(Exception)\<close> with \<open>__bool__\<close> returning
  \<open>False\<close>) and its supervisor; \<open>retry_process\<close> after \<open>start_continuous\<close>, once with the
  thread started and once with \<open>Thread.start()\<close> failing; a second supervisor under the name
  of \<open>retry_process\<close>; one constructed with \<open>max_retries=0\<close>; and one whose metrics show
  nine executions, all failed.
\<close>

definition quiet_fails :: "(unit, nat, string) task" where
  "quiet_fails args calls = (Inl (OtherException ''Quiet'' ''quiet failure'' False), calls + 1)"

definition quiet_process :: "(unit, nat, string, unit) SuperProcess" where
  "quiet_process = SuperProcess_init ''quiet_process'' quiet_fails True 2 0.8"



definition duplicate_process :: "(unit, nat, string, unit) SuperProcess" where
  "duplicate_process = SuperProcess_init ''retry_process'' always_fails False 1 0.5"

definition no_retries_process :: "(unit, nat, string, unit) SuperProcess" where
  "no_retries_process = SuperProcess_init ''no_retries'' failing_func True 0 0.8"

definition nine_failures :: "(unit, nat, string, unit) SuperProcess" where
  "nine_failures =
     (SuperProcess_init ''nine_failures'' always_fails True 3 0.8)
       \<lparr>metrics := ProcessMetrics_init\<lparr>execution_count := 9, error_count := 9\<rparr>\<rparr>"

text \<open>
  The trace that attempts \<open>a\<close> to \<open>b\<close> leave when each but the last is followed by a
  sleep of a tenth of a second times its number.
\<close>

definition backoff_trace :: "int \<Rightarrow> int \<Rightarrow> event list" where
  "backoff_trace a b =
     concat (map (\<lambda>i. Invoke # (if i < b then [Sleep (0.1 * real_of_int i)] else [])) [a..b])"

section \<open>Frame lemmas\<close>

lemma level_only_refl: "level_only s s"
  unfolding level_only_def by (rule exI[of _ "optimization_level (metrics s)"]) simp

lemma level_only_optimize: "level_only s (optimize s)"
  unfolding level_only_def
  by (rule exI[of _ "optimization_level (metrics s) + 0.1"]) (simp add: optimize_def Let_def)

lemma level_only_trans:
  assumes "level_only s s1" and "level_only s1 s2"
  shows "level_only s s2"
proof -
  from assms(1) obtain l1 where e1: "s1 = s\<lparr>metrics := (metrics s)\<lparr>optimization_level := l1\<rparr>\<rparr>"
    unfolding level_only_def by blast
  from assms(2) obtain l2 where e2: "s2 = s1\<lparr>metrics := (metrics s1)\<lparr>optimization_level := l2\<rparr>\<rparr>"
    unfolding level_only_def by blast
  have "s2 = s\<lparr>metrics := (metrics s)\<lparr>optimization_level := l2\<rparr>\<rparr>"
    by (simp add: e1 e2)
  then show ?thesis unfolding level_only_def by blast
qed

lemma level_only_fields:
  assumes "level_only s s'"
  shows "process_function s' = process_function s" "max_retries s' = max_retries s"
    "state s' = state s" "auto_optimize s' = auto_optimize s" "name s' = name s"
    "optimization_threshold s' = optimization_threshold s"
    "stop_flag s' = stop_flag s" "pause_flag s' = pause_flag s" "thread s' = thread s"
    "execution_count (metrics s') = execution_count (metrics s)"
    "total_runtime (metrics s') = total_runtime (metrics s)"
    "average_runtime (metrics s') = average_runtime (metrics s)"
    "success_count (metrics s') = success_count (metrics s)"
    "error_count (metrics s') = error_count (metrics s)"
    "last_execution_time (metrics s') = last_execution_time (metrics s)"
    "metadata (metrics s') = metadata (metrics s)"
proof -
  from assms obtain l where e: "s' = s\<lparr>metrics := (metrics s)\<lparr>optimization_level := l\<rparr>\<rparr>"
    unfolding level_only_def by blast
  show "process_function s' = process_function s" "max_retries s' = max_retries s"
    "state s' = state s" "auto_optimize s' = auto_optimize s" "name s' = name s"
    "optimization_threshold s' = optimization_threshold s"
    "stop_flag s' = stop_flag s" "pause_flag s' = pause_flag s" "thread s' = thread s"
    "execution_count (metrics s') = execution_count (metrics s)"
    "total_runtime (metrics s') = total_runtime (metrics s)"
    "average_runtime (metrics s') = average_runtime (metrics s)"
    "success_count (metrics s') = success_count (metrics s)"
    "error_count (metrics s') = error_count (metrics s)"
    "last_execution_time (metrics s') = last_execution_time (metrics s)"
    "metadata (metrics s') = metadata (metrics s)"
    by (simp_all add: e)
qed

lemma world_after_shift:
  "world_after f args (snd (f args w)) i = world_after f args w (Suc i)"
  by (induction i) simp_all

lemma outcome_shift: "outcome f args (snd (f args w)) i = outcome f args w (Suc i)"
  unfolding outcome_def world_after_shift by simp

lemma attempt_raise:
  assumes "fst (process_function s args w) = Inl e"
  shows "\<exists>s1. attempt args s w = (Inl e, s1, snd (process_function s args w)) \<and> level_only s s1"
proof -
  define s1 where "s1 = (if auto_optimize s \<and> should_optimize s then optimize s else s)"
  have lo: "level_only s s1"
    by (simp add: s1_def level_only_optimize level_only_refl)
  obtain w1 where "process_function s args w = (Inl e, w1)"
    using assms by (cases "process_function s args w") simp
  then have pf: "process_function s1 args w = (Inl e, w1)" "snd (process_function s args w) = w1"
    using level_only_fields(1)[OF lo] by simp_all
  have "attempt args s w = (Inl e, s1, snd (process_function s args w))"
    unfolding attempt_def s1_def[symmetric] Let_def using pf by simp
  then show ?thesis using lo by blast
qed

lemma update_execution_ok:
  assumes "execution_count m \<noteq> - 1"
  shows "update_execution m rt ok =
           (Inr (),
            m\<lparr>execution_count := execution_count m + 1,
              total_runtime := total_runtime m + rt,
              average_runtime := (total_runtime m + rt) / real_of_int (execution_count m + 1),
              last_execution_time := rt,
              success_count := (if ok then success_count m + 1 else success_count m),
              error_count := (if ok then error_count m else error_count m + 1)\<rparr>)"
  using assms by (simp add: update_execution_def Let_def)

lemma attempt_return:
  assumes "process_function s args w = (Inr (r, dt), w1)"
    and "execution_count (metrics s) \<noteq> - 1"
  shows "\<exists>s1 m1. attempt args s w = (Inr r, s1\<lparr>metrics := m1, state := IDLE\<rparr>, w1) \<and> level_only s s1
           \<and> update_execution (metrics s1) dt True = (Inr (), m1)"
proof -
  define s1 where "s1 = (if auto_optimize s \<and> should_optimize s then optimize s else s)"
  have lo: "level_only s s1"
    by (simp add: s1_def level_only_optimize level_only_refl)
  have pf: "process_function s1 args w = (Inr (r, dt), w1)"
    using assms(1) level_only_fields(1)[OF lo] by simp
  have "execution_count (metrics s1) \<noteq> - 1"
    using assms(2) level_only_fields(10)[OF lo] by simp
  from update_execution_ok[OF this] obtain m1 where
    m1: "update_execution (metrics s1) dt True = (Inr (), m1)" by blast
  have "attempt args s w = (Inr r, s1\<lparr>metrics := m1, state := IDLE\<rparr>, w1)"
    unfolding attempt_def s1_def[symmetric] Let_def using pf m1 by simp
  then show ?thesis using lo m1 by blast
qed

lemma invocations_simps:
  "invocations [] = 0"
  "invocations (tr @ tr') = invocations tr + invocations tr'"
  "invocations (Invoke # tr) = Suc (invocations tr)"
  "invocations (Sleep d # tr) = invocations tr"
  by (simp_all add: invocations_def)

lemma execute_loop_succeeds:
  assumes "process_function s = f"
    and "\<forall>i<j. isl (outcome f args w i)"
    and "outcome f args w j = Inr (r, dt)"
    and "retries + int j < max_retries s"
    and "execution_count (metrics s) \<noteq> - 1"
  shows "\<exists>s1 m1 tr'.
           execute_loop args retries le tr s w =
             (Inr (Some r), tr', s1\<lparr>metrics := m1, state := IDLE\<rparr>, world_after f args w (Suc j))
           \<and> level_only s s1
           \<and> update_execution (metrics s1) dt True = (Inr (), m1)
           \<and> invocations tr' = invocations tr + Suc j"
  using assms
proof (induction j arbitrary: retries le tr s w)
  case 0
  then have pf: "process_function s args w = (Inr (r, dt), snd (f args w))"
    by (simp add: outcome_def prod_eq_iff)
  from attempt_return[OF pf "0.prems"(5)] obtain s1 m1 where
    a: "attempt args s w = (Inr r, s1\<lparr>metrics := m1, state := IDLE\<rparr>, snd (f args w))"
    and lo: "level_only s s1" and up: "update_execution (metrics s1) dt True = (Inr (), m1)"
    by blast
  have "retries < max_retries s" using "0.prems"(4) by simp
  then have "execute_loop args retries le tr s w =
          (Inr (Some r), tr @ [Invoke], s1\<lparr>metrics := m1, state := IDLE\<rparr>, snd (f args w))"
    by (subst execute_loop.simps) (simp add: a)
  then show ?case using lo up by (auto simp: invocations_simps)
next
  case (Suc j)
  from Suc.prems(2) have "isl (outcome f args w 0)" by blast
  then obtain e where e: "fst (process_function s args w) = Inl e"
    using Suc.prems(1) by (auto simp: outcome_def isl_def)
  from attempt_raise[OF e] obtain s1 where
    a: "attempt args s w = (Inl e, s1, snd (f args w))" and lo: "level_only s s1"
    using Suc.prems(1) by auto
  let ?w1 = "snd (f args w)"
  let ?tr1 = "tr @ [Invoke] @
     (if retries + 1 < max_retries s1 then [Sleep (0.1 * real_of_int (retries + 1))] else [])"
  have lt: "retries < max_retries s" using Suc.prems(4) by simp
  have unfold: "execute_loop args retries le tr s w =
      execute_loop args (retries + 1) (Some e) ?tr1 s1 ?w1"
    using lt by (subst execute_loop.simps) (simp add: a Let_def)
  have p1: "process_function s1 = f"
    using level_only_fields(1)[OF lo] Suc.prems(1) by simp
  have p2: "\<forall>i<j. isl (outcome f args ?w1 i)"
    using Suc.prems(2) by (simp add: outcome_shift)
  have p3: "outcome f args ?w1 j = Inr (r, dt)"
    using Suc.prems(3) by (simp add: outcome_shift)
  have p4: "(retries + 1) + int j < max_retries s1"
    using Suc.prems(4) level_only_fields(2)[OF lo] by simp
  have p5: "execution_count (metrics s1) \<noteq> - 1"
    using Suc.prems(5) level_only_fields(10)[OF lo] by simp
  from Suc.IH[OF p1 p2 p3 p4 p5, of "Some e" ?tr1] obtain s2 m2 tr' where
    r: "execute_loop args (retries + 1) (Some e) ?tr1 s1 ?w1 =
          (Inr (Some r), tr', s2\<lparr>metrics := m2, state := IDLE\<rparr>, world_after f args ?w1 (Suc j))"
    and lo2: "level_only s1 s2"
    and up: "update_execution (metrics s2) dt True = (Inr (), m2)"
    and inv: "invocations tr' = invocations ?tr1 + Suc j"
    by blast
  have w: "world_after f args ?w1 (Suc j) = world_after f args w (Suc (Suc j))"
    by (rule world_after_shift)
  have inv': "invocations tr' = invocations tr + Suc (Suc j)"
    using inv by (simp add: invocations_simps)
  show ?case
    using unfold r w level_only_trans[OF lo lo2] up inv' by auto
qed

lemma retry_process_fields:
  "process_function retry_process = failing_func" "max_retries retry_process = 3"
  "metrics retry_process = ProcessMetrics_init" "state retry_process = IDLE"
  by (simp_all add: retry_process_def SuperProcess_init_def)

lemma failing_func_outcomes:
  "outcome failing_func () 0 0 = Inl (ValueError ''Simulated failure'')"
  "outcome failing_func () 0 (Suc 0) = Inl (ValueError ''Simulated failure'')"
  "outcome failing_func () 0 (Suc (Suc 0)) = Inr (''success'', 0.25)"
  by (simp_all add: outcome_def failing_func_def)

lemma error_process_fields:
  "process_function error_process = always_fails" "max_retries error_process = 2"
  "metrics error_process = ProcessMetrics_init" "state error_process = IDLE"
  by (simp_all add: error_process_def SuperProcess_init_def)

lemma always_fails_outcome: "outcome always_fails () w i = Inl (RuntimeError ''Always fails'')"
  by (simp add: outcome_def always_fails_def)

section \<open>Retry until success\<close>

text \<open>
  Claim C1. Let the task function raise on its first \<open>j\<close> calls and return \<open>r\<close>, measured
  at \<open>dt\<close> seconds, on call \<open>k = j + 1\<close>, with \<open>k \<le> max_retries\<close>. Then \<open>execute\<close> returns
  \<open>r\<close> after exactly \<open>k\<close> calls of the task function (none after the successful one),
  leaves the state \<open>IDLE\<close>, and has updated the metrics once: \<open>execution_count\<close> and
  \<open>success_count\<close> are one higher, \<open>error_count\<close> is as before, and the runtime recorded
  is \<open>dt\<close>, the one of the successful call. The metrics are those of any supervisor whose
  counter is not \<open>-1\<close>, which covers every counter that counts executions.
\<close>

theorem execute_succeeds_on_later_attempt:
  assumes "\<forall>i<j. isl (outcome (process_function s) args w i)"
    and "outcome (process_function s) args w j = Inr (r, dt)"
    and "int j < max_retries s"
    and "execution_count (metrics s) \<noteq> - 1"
  shows "case execute args s w of
           (res, tr, s', w') \<Rightarrow>
             res = Inr (Some r) \<and> invocations tr = Suc j
             \<and> w' = world_after (process_function s) args w (Suc j)
             \<and> state s' = IDLE
             \<and> execution_count (metrics s') = execution_count (metrics s) + 1
             \<and> success_count (metrics s') = success_count (metrics s) + 1
             \<and> error_count (metrics s') = error_count (metrics s)
             \<and> last_execution_time (metrics s') = dt
             \<and> total_runtime (metrics s') = total_runtime (metrics s) + dt
             \<and> average_runtime (metrics s') =
                 (total_runtime (metrics s) + dt) / real_of_int (execution_count (metrics s) + 1)"
proof -
  let ?s0 = "s\<lparr>state := RUNNING\<rparr>"
  let ?f = "process_function s"
  have "process_function ?s0 = ?f" "0 + int j < max_retries ?s0" "execution_count (metrics ?s0) \<noteq> - 1"
    using assms(3,4) by simp_all
  from execute_loop_succeeds[OF this(1) assms(1,2) this(2,3), of None "[]"]
  obtain s1 m1 tr' where
    r: "execute args s w =
          (Inr (Some r), tr', s1\<lparr>metrics := m1, state := IDLE\<rparr>, world_after ?f args w (Suc j))"
    and lo: "level_only ?s0 s1"
    and up: "update_execution (metrics s1) dt True = (Inr (), m1)"
    and inv: "invocations tr' = invocations [] + Suc j"
    unfolding execute_def by blast
  note fs = level_only_fields[OF lo]
  have ne: "execution_count (metrics s1) \<noteq> - 1"
    using assms(4) fs(10) by simp
  have m1: "m1 = snd (update_execution (metrics s1) dt True)"
    using up by simp
  show ?thesis
    unfolding r using inv fs(10,11,13,14)
    by (simp add: m1 update_execution_ok[OF ne] invocations_simps)
qed

theorem execute_succeeds_on_later_attempt_witness:
  "isl (outcome (process_function retry_process) () 0 0)
   \<and> isl (outcome (process_function retry_process) () 0 1)
   \<and> outcome (process_function retry_process) () 0 2 = Inr (''success'', 0.25)
   \<and> int 2 < max_retries retry_process
   \<and> execution_count (metrics retry_process) \<noteq> - 1
   \<and> fst (execute () retry_process 0) = Inr (Some ''success'')
   \<and> invocations (fst (snd (execute () retry_process 0))) = 3
   \<and> state (fst (snd (snd (execute () retry_process 0)))) = IDLE
   \<and> execution_count (metrics (fst (snd (snd (execute () retry_process 0))))) = 1
   \<and> last_execution_time (metrics (fst (snd (snd (execute () retry_process 0))))) = 0.25"
proof -
  have h1: "\<forall>i<2. isl (outcome (process_function retry_process) () 0 i)"
    by (simp add: retry_process_fields failing_func_outcomes less_2_cases_iff)
  have h2: "outcome (process_function retry_process) () 0 2 = Inr (''success'', 0.25)"
    by (simp add: retry_process_fields failing_func_outcomes numeral_2_eq_2)
  have h3: "int 2 < max_retries retry_process"
    by (simp add: retry_process_fields)
  have h4: "execution_count (metrics retry_process) \<noteq> - 1"
    by (simp add: retry_process_fields ProcessMetrics_init_def)
  show ?thesis
    using execute_succeeds_on_later_attempt[OF h1 h2 h3 h4] h1 h2 h3 h4
    by (simp add: retry_process_fields ProcessMetrics_init_def split: prod.splits)
qed

section \<open>Retries exhausted\<close>

lemma exhausted_Some:
  assumes "execution_count (metrics s) \<noteq> - 1" and "truth_value e"
  shows "exhausted (Some e) s =
           (Inl e, s\<lparr>metrics := snd (update_execution (metrics s) 0 False), state := ERROR\<rparr>)"
  using update_execution_ok[OF assms(1), of 0 False] assms(2) by (simp add: exhausted_def)

lemma exhausted_falsy: "\<not> truth_value e \<Longrightarrow> exhausted (Some e) s = (Inr None, s)"
  by (simp add: exhausted_def)

lemma execute_loop_all_fail:
  assumes "process_function s = f"
    and "\<forall>i<n. isl (outcome f args w i)"
    and "retries + int n = max_retries s"
  shows "\<exists>s1 tr'.
           execute_loop args retries le tr s w =
             (fst (exhausted (if n = 0 then le else Some (projl (outcome f args w (n - 1)))) s1), tr',
              snd (exhausted (if n = 0 then le else Some (projl (outcome f args w (n - 1)))) s1),
              world_after f args w n)
           \<and> level_only s s1
           \<and> invocations tr' = invocations tr + n"
  using assms
proof (induction n arbitrary: retries le tr s w)
  case 0
  then have "\<not> retries < max_retries s" by simp
  then have "execute_loop args retries le tr s w =
      (fst (exhausted le s), tr, snd (exhausted le s), w)"
    by (subst execute_loop.simps) (simp add: case_prod_beta)
  then show ?case using level_only_refl[of s] by auto
next
  case (Suc n)
  from Suc.prems(2) have "isl (outcome f args w 0)" by blast
  then obtain e where e: "fst (process_function s args w) = Inl e"
    using Suc.prems(1) by (auto simp: outcome_def isl_def)
  then have e0: "outcome f args w 0 = Inl e"
    using Suc.prems(1) by (simp add: outcome_def)
  from attempt_raise[OF e] obtain s1 where
    a: "attempt args s w = (Inl e, s1, snd (f args w))" and lo: "level_only s s1"
    using Suc.prems(1) by auto
  let ?w1 = "snd (f args w)"
  let ?tr1 = "tr @ [Invoke] @
     (if retries + 1 < max_retries s1 then [Sleep (0.1 * real_of_int (retries + 1))] else [])"
  have lt: "retries < max_retries s" using Suc.prems(3) by simp
  have unfold: "execute_loop args retries le tr s w =
      execute_loop args (retries + 1) (Some e) ?tr1 s1 ?w1"
    using lt by (subst execute_loop.simps) (simp add: a Let_def)
  have p1: "process_function s1 = f"
    using level_only_fields(1)[OF lo] Suc.prems(1) by simp
  have p2: "\<forall>i<n. isl (outcome f args ?w1 i)"
    using Suc.prems(2) by (simp add: outcome_shift)
  have p3: "(retries + 1) + int n = max_retries s1"
    using Suc.prems(3) level_only_fields(2)[OF lo] by simp
  let ?le = "if n = 0 then Some e else Some (projl (outcome f args ?w1 (n - 1)))"
  from Suc.IH[OF p1 p2 p3, of "Some e" ?tr1] obtain s2 tr' where
    r: "execute_loop args (retries + 1) (Some e) ?tr1 s1 ?w1 =
          (fst (exhausted ?le s2), tr', snd (exhausted ?le s2), world_after f args ?w1 n)"
    and lo2: "level_only s1 s2"
    and inv: "invocations tr' = invocations ?tr1 + n"
    by blast
  have le: "?le = Some (projl (outcome f args w (Suc n - 1)))"
  proof (cases n)
    case 0
    then show ?thesis using e0 by simp
  next
    case (Suc k)
    then show ?thesis by (simp add: outcome_shift)
  qed
  have w: "world_after f args ?w1 n = world_after f args w (Suc n)"
    by (rule world_after_shift)
  have inv': "invocations tr' = invocations tr + Suc n"
    using inv by (simp add: invocations_simps)
  show ?case
    using unfold r w level_only_trans[OF lo lo2] inv' unfolding le by auto
qed

text \<open>
  Claim C2. Let \<open>max_retries \<ge> 1\<close> and let the task function raise on each of its
  \<open>max_retries\<close> calls. The claim asks that \<open>execute\<close> then raise the exception of the last
  call, leave the state \<open>ERROR\<close>, and update the metrics once with runtime \<open>0.0\<close> and
  \<open>success = False\<close>. After exactly \<open>max_retries\<close> calls the code does so when the last
  exception is true as a Python value: \<open>total_runtime\<close> and \<open>success_count\<close> are as before,
  \<open>error_count\<close> and \<open>execution_count\<close> are one higher. When the last exception is false
  as a Python value, the test \<open>if last_error:\<close> fails: \<open>execute\<close> returns \<open>None\<close> without
  raising, leaves the state \<open>RUNNING\<close> and records nothing. The theorem states both. As for
  C1, the metrics are those of any supervisor whose counter is not \<open>-1\<close>; at \<open>-1\<close> the
  update itself would divide by zero.
\<close>

theorem execute_all_attempts_fail:
  assumes "1 \<le> max_retries s"
    and "\<forall>i < nat (max_retries s). isl (outcome (process_function s) args w i)"
    and "execution_count (metrics s) \<noteq> - 1"
  shows "case execute args s w of
           (res, tr, s', w') \<Rightarrow>
             invocations tr = nat (max_retries s)
             \<and> w' = world_after (process_function s) args w (nat (max_retries s))
             \<and> (if truth_value (projl (outcome (process_function s) args w (nat (max_retries s) - 1)))
                then res = Inl (projl (outcome (process_function s) args w (nat (max_retries s) - 1)))
                     \<and> state s' = ERROR
                     \<and> total_runtime (metrics s') = total_runtime (metrics s)
                     \<and> error_count (metrics s') = error_count (metrics s) + 1
                     \<and> success_count (metrics s') = success_count (metrics s)
                     \<and> execution_count (metrics s') = execution_count (metrics s) + 1
                     \<and> last_execution_time (metrics s') = 0
                else res = Inr None
                     \<and> state s' = RUNNING
                     \<and> total_runtime (metrics s') = total_runtime (metrics s)
                     \<and> error_count (metrics s') = error_count (metrics s)
                     \<and> success_count (metrics s') = success_count (metrics s)
                     \<and> execution_count (metrics s') = execution_count (metrics s))"
proof -
  let ?s0 = "s\<lparr>state := RUNNING\<rparr>"
  let ?f = "process_function s"
  let ?n = "nat (max_retries s)"
  let ?e = "projl (outcome ?f args w (?n - 1))"
  have n0: "?n \<noteq> 0" using assms(1) by simp
  have "process_function ?s0 = ?f" "0 + int ?n = max_retries ?s0"
    using assms(1) by simp_all
  from execute_loop_all_fail[OF this(1) assms(2) this(2), of None "[]"]
  obtain s1 tr' where
    r: "execute args s w =
          (fst (exhausted (Some ?e) s1), tr', snd (exhausted (Some ?e) s1), world_after ?f args w ?n)"
    and lo: "level_only ?s0 s1"
    and inv: "invocations tr' = invocations [] + ?n"
    unfolding execute_def using n0 by auto
  note fs = level_only_fields[OF lo]
  have ne: "execution_count (metrics s1) \<noteq> - 1"
    using assms(3) fs(10) by simp
  show ?thesis
  proof (cases "truth_value ?e")
    case True
    show ?thesis
      unfolding r exhausted_Some[OF ne True]
      using True inv fs(10,11,13,14) update_execution_ok[OF ne, of 0 False]
      by (simp add: invocations_simps)
  next
    case False
    show ?thesis
      unfolding r exhausted_falsy[OF False]
      using False inv fs(3,10,11,13,14)
      by (simp add: invocations_simps)
  qed
qed

lemma quiet_process_fields:
  "process_function quiet_process = quiet_fails" "max_retries quiet_process = 2"
  "metrics quiet_process = ProcessMetrics_init" "state quiet_process = IDLE"
  by (simp_all add: quiet_process_def SuperProcess_init_def)

lemma quiet_fails_outcome:
  "outcome quiet_fails () w i = Inl (OtherException ''Quiet'' ''quiet failure'' False)"
  by (simp add: outcome_def quiet_fails_def)

theorem execute_all_attempts_fail_witness:
  "1 \<le> max_retries error_process
   \<and> isl (outcome (process_function error_process) () 0 0)
   \<and> isl (outcome (process_function error_process) () 0 1)
   \<and> execution_count (metrics error_process) \<noteq> - 1
   \<and> fst (execute () error_process 0) = Inl (RuntimeError ''Always fails'')
   \<and> invocations (fst (snd (execute () error_process 0))) = 2
   \<and> state (fst (snd (snd (execute () error_process 0)))) = ERROR
   \<and> total_runtime (metrics (fst (snd (snd (execute () error_process 0))))) = 0
   \<and> error_count (metrics (fst (snd (snd (execute () error_process 0))))) = 1
   \<and> success_count (metrics (fst (snd (snd (execute () error_process 0))))) = 0
   \<and> 1 \<le> max_retries quiet_process
   \<and> isl (outcome (process_function quiet_process) () 0 0)
   \<and> isl (outcome (process_function quiet_process) () 0 1)
   \<and> execution_count (metrics quiet_process) \<noteq> - 1
   \<and> fst (execute () quiet_process 0) = Inr None
   \<and> invocations (fst (snd (execute () quiet_process 0))) = 2
   \<and> state (fst (snd (snd (execute () quiet_process 0)))) = RUNNING
   \<and> error_count (metrics (fst (snd (snd (execute () quiet_process 0))))) = 0
   \<and> execution_count (metrics (fst (snd (snd (execute () quiet_process 0))))) = 0"
proof -
  have h1: "1 \<le> max_retries error_process"
    by (simp add: error_process_fields)
  have h2: "\<forall>i < nat (max_retries error_process). isl (outcome (process_function error_process) () 0 i)"
    by (simp add: error_process_fields always_fails_outcome)
  have h3: "execution_count (metrics error_process) \<noteq> - 1"
    by (simp add: error_process_fields ProcessMetrics_init_def)
  have q1: "1 \<le> max_retries quiet_process"
    by (simp add: quiet_process_fields)
  have q2: "\<forall>i < nat (max_retries quiet_process). isl (outcome (process_function quiet_process) () 0 i)"
    by (simp add: quiet_process_fields quiet_fails_outcome)
  have q3: "execution_count (metrics quiet_process) \<noteq> - 1"
    by (simp add: quiet_process_fields ProcessMetrics_init_def)
  have a: "fst (execute () error_process 0) = Inl (RuntimeError ''Always fails'')
   \<and> invocations (fst (snd (execute () error_process 0))) = 2
   \<and> state (fst (snd (snd (execute () error_process 0)))) = ERROR
   \<and> total_runtime (metrics (fst (snd (snd (execute () error_process 0))))) = 0
   \<and> error_count (metrics (fst (snd (snd (execute () error_process 0))))) = 1
   \<and> success_count (metrics (fst (snd (snd (execute () error_process 0))))) = 0"
    using execute_all_attempts_fail[OF h1 h2 h3]
    by (simp add: error_process_fields always_fails_outcome ProcessMetrics_init_def split: prod.splits)
  have b: "fst (execute () quiet_process 0) = Inr None
   \<and> invocations (fst (snd (execute () quiet_process 0))) = 2
   \<and> state (fst (snd (snd (execute () quiet_process 0)))) = RUNNING
   \<and> error_count (metrics (fst (snd (snd (execute () quiet_process 0))))) = 0
   \<and> execution_count (metrics (fst (snd (snd (execute () quiet_process 0))))) = 0"
    using execute_all_attempts_fail[OF q1 q2 q3]
    by (simp add: quiet_process_fields quiet_fails_outcome ProcessMetrics_init_def split: prod.splits)
  show ?thesis
    using a b h1 h3 q1 q3
    by (simp add: error_process_fields always_fails_outcome quiet_process_fields quiet_fails_outcome)
qed

section \<open>The backoff between attempts\<close>

lemma attempt_max_retries:
  "attempt args s w = (r, s', w') \<Longrightarrow> max_retries s' = max_retries s"
  by (auto simp: attempt_def optimize_def Let_def split: prod.splits sum.splits if_splits)

lemma backoff_trace_empty: "b < a \<Longrightarrow> backoff_trace a b = []"
  by (simp add: backoff_trace_def)

lemma backoff_trace_step:
  "a \<le> b \<Longrightarrow> backoff_trace a b =
     Invoke # (if a < b then [Sleep (0.1 * real_of_int a)] else []) @ backoff_trace (a + 1) b"
  by (simp add: backoff_trace_def upto_rec1[of a b])

lemma execute_loop_trace:
  "\<exists>c. 0 \<le> c \<and> (retries < max_retries s \<longrightarrow> 1 \<le> c)
       \<and> retries + c \<le> max retries (max_retries s)
       \<and> fst (snd (execute_loop args retries le tr s w)) = tr @ backoff_trace (retries + 1) (retries + c)
       \<and> int (invocations (fst (snd (execute_loop args retries le tr s w)))) = int (invocations tr) + c
       \<and> (retries + c = max retries (max_retries s)
            \<or> (\<exists>r. fst (execute_loop args retries le tr s w) = Inr (Some r)))"
proof (induction "nat (max_retries s - retries)" arbitrary: retries le tr s w)
  case 0
  then have ge: "\<not> retries < max_retries s" by simp
  then have "execute_loop args retries le tr s w =
      (fst (exhausted le s), tr, snd (exhausted le s), w)"
    by (subst execute_loop.simps) (simp add: case_prod_beta)
  then show ?case using ge
    by (intro exI[of _ 0]) (simp add: backoff_trace_empty)
next
  case (Suc n)
  then have lt: "retries < max_retries s" by simp
  obtain res s' w' where a: "attempt args s w = (res, s', w')"
    by (cases "attempt args s w") auto
  have mr: "max_retries s' = max_retries s"
    by (rule attempt_max_retries[OF a])
  show ?case
  proof (cases res)
    case (Inr result)
    have "execute_loop args retries le tr s w = (Inr (Some result), tr @ [Invoke], s', w')"
      using lt a Inr by (subst execute_loop.simps) simp
    then show ?thesis using lt
      by (intro exI[of _ 1]) (simp add: backoff_trace_step backoff_trace_empty invocations_simps)
  next
    case (Inl e)
    let ?tr1 = "tr @ [Invoke] @
       (if retries + 1 < max_retries s' then [Sleep (0.1 * real_of_int (retries + 1))] else [])"
    have unfold: "execute_loop args retries le tr s w =
        execute_loop args (retries + 1) (Some e) ?tr1 s' w'"
      using lt a Inl by (subst execute_loop.simps) (simp add: Let_def)
    have n: "n = nat (max_retries s' - (retries + 1))"
      using Suc.hyps(2) mr by simp
    from Suc.hyps(1)[OF n, of "Some e" ?tr1 w'] obtain c where
      c0: "0 \<le> c" and c1: "retries + 1 < max_retries s' \<longrightarrow> 1 \<le> c"
      and cm: "retries + 1 + c \<le> max (retries + 1) (max_retries s')"
      and ct: "fst (snd (execute_loop args (retries + 1) (Some e) ?tr1 s' w')) =
                 ?tr1 @ backoff_trace (retries + 1 + 1) (retries + 1 + c)"
      and ci: "int (invocations (fst (snd (execute_loop args (retries + 1) (Some e) ?tr1 s' w')))) =
                 int (invocations ?tr1) + c"
      and cr: "retries + 1 + c = max (retries + 1) (max_retries s')
                \<or> (\<exists>r. fst (execute_loop args (retries + 1) (Some e) ?tr1 s' w') = Inr (Some r))"
      by blast
    have iff: "(retries + 1 < max_retries s') = (retries + 1 < retries + (c + 1))"
      using c0 c1 cm by auto
    have tr: "?tr1 @ backoff_trace (retries + 1 + 1) (retries + 1 + c) =
                tr @ backoff_trace (retries + 1) (retries + (c + 1))"
    proof -
      have e: "retries + 1 + c = retries + (c + 1)" by simp
      have step: "backoff_trace (retries + 1) (retries + (c + 1)) =
          Invoke # (if retries + 1 < retries + (c + 1) then [Sleep (0.1 * real_of_int (retries + 1))] else [])
            @ backoff_trace (retries + 1 + 1) (retries + (c + 1))"
        using c0 by (intro backoff_trace_step) simp
      show ?thesis
        unfolding e step iff by simp
    qed
    define R where "R = execute_loop args (retries + 1) (Some e) ?tr1 s' w'"
    have i1: "int (invocations ?tr1) = int (invocations tr) + 1"
      by (simp add: invocations_simps)
    have g1: "0 \<le> c + 1" using c0 by simp
    have g2: "retries < max_retries s \<longrightarrow> 1 \<le> c + 1" using c0 by simp
    have g3: "retries + (c + 1) \<le> max retries (max_retries s)" using cm mr lt by simp
    have g4: "fst (snd R) = tr @ backoff_trace (retries + 1) (retries + (c + 1))"
      unfolding R_def by (rule trans[OF ct tr])
    have g5: "int (invocations (fst (snd R))) = int (invocations tr) + (c + 1)"
      unfolding R_def using ci i1 by linarith
    have g6: "retries + (c + 1) = max retries (max_retries s) \<or> (\<exists>r. fst R = Inr (Some r))"
      unfolding R_def using cr mr lt by auto
    show ?thesis
      unfolding unfold R_def[symmetric] using g1 g2 g3 g4 g5 g6 by blast
  qed
qed

lemma backoff_trace_alt:
  assumes "a \<le> b"
  shows "backoff_trace a b =
           concat (map (\<lambda>i. [Invoke, Sleep (0.1 * real_of_int i)]) [a..b - 1]) @ [Invoke]"
proof -
  have split: "[a..b] = [a..b - 1] @ [b]"
    using assms by (rule upto_rec2)
  have m: "map (\<lambda>i. Invoke # (if i < b then [Sleep (0.1 * real_of_int i)] else [])) [a..b - 1] =
           map (\<lambda>i. [Invoke, Sleep (0.1 * real_of_int i)]) [a..b - 1]"
    by (rule map_cong) auto
  show ?thesis
    unfolding backoff_trace_def split by (simp add: m)
qed

lemma execute_trace_shape:
  "\<exists>c. 0 \<le> c \<and> c \<le> max 0 (max_retries s)
       \<and> int (invocations (fst (snd (execute args s w)))) = c
       \<and> fst (snd (execute args s w)) = backoff_trace 1 c
       \<and> (c = max 0 (max_retries s) \<or> (\<exists>r. fst (execute args s w) = Inr (Some r)))"
  using execute_loop_trace[of 0 "s\<lparr>state := RUNNING\<rparr>" args None "[]" w]
  by (simp add: execute_def invocations_simps)

lemma execute_trace_of_count:
  assumes "int (invocations (fst (snd (execute args s w)))) = n" and "1 \<le> n"
  shows "fst (snd (execute args s w)) =
           concat (map (\<lambda>i. [Invoke, Sleep (0.1 * real_of_int i)]) [1..n - 1]) @ [Invoke]"
proof -
  from execute_trace_shape[of s args w] obtain c where
    c: "int (invocations (fst (snd (execute args s w)))) = c"
    and tr: "fst (snd (execute args s w)) = backoff_trace 1 c"
    by blast
  have "c = n" using c assms(1) by simp
  then show ?thesis
    using tr backoff_trace_alt[OF assms(2)] by simp
qed

text \<open>
  Claim C5. The trace of \<open>execute\<close> lists its calls of the task function and its sleeps in
  order. If the task function raises on its first \<open>j\<close> calls and returns on the next,
  within \<open>max_retries\<close>, the trace is: for each attempt \<open>i = 1, \<dots>, j\<close> the call followed by
  one sleep of \<open>0.1 * i\<close> seconds, then the successful call and nothing after it. If the
  task function raises on all of its \<open>max_retries \<ge> 1\<close> calls, the trace is: for each
  attempt \<open>i = 1, \<dots>, max_retries - 1\<close> the call followed by one sleep of \<open>0.1 * i\<close>
  seconds, then the final call and no sleep after it. So the delay after failed attempt
  number \<open>i\<close> with attempts remaining is exactly \<open>0.1 * i\<close> (linear in the counter), and
  there is none after the final attempt. Whatever the task function does, the trace has
  this shape: \<open>c \<le> max_retries\<close> calls, a sleep of \<open>0.1 * i\<close> after call \<open>i\<close> exactly for
  \<open>i < c\<close>, and the last call is a successful one or call number \<open>max_retries\<close>.
\<close>

theorem execute_backoff_linear:
  "((\<forall>i<j. isl (outcome (process_function s) args w i))
      \<and> outcome (process_function s) args w j = Inr (r, dt)
      \<and> int j < max_retries s \<and> execution_count (metrics s) \<noteq> - 1
     \<longrightarrow> fst (snd (execute args s w)) =
           concat (map (\<lambda>i. [Invoke, Sleep (0.1 * real_of_int i)]) [1..int j]) @ [Invoke])
   \<and> ((\<forall>i < nat (max_retries s). isl (outcome (process_function s) args w i))
        \<and> 1 \<le> max_retries s
       \<longrightarrow> fst (snd (execute args s w)) =
             concat (map (\<lambda>i. [Invoke, Sleep (0.1 * real_of_int i)]) [1..max_retries s - 1])
             @ [Invoke])
   \<and> (\<exists>c. 0 \<le> c \<and> c \<le> max 0 (max_retries s)
          \<and> int (invocations (fst (snd (execute args s w)))) = c
          \<and> fst (snd (execute args s w)) =
              concat (map (\<lambda>i. Invoke # (if i < c then [Sleep (0.1 * real_of_int i)] else [])) [1..c])
          \<and> (c = max 0 (max_retries s) \<or> (\<exists>r. fst (execute args s w) = Inr (Some r))))"
proof -
  let ?s0 = "s\<lparr>state := RUNNING\<rparr>"
  let ?f = "process_function s"
  have succ: "fst (snd (execute args s w)) =
           concat (map (\<lambda>i. [Invoke, Sleep (0.1 * real_of_int i)]) [1..int j]) @ [Invoke]"
    if h: "\<forall>i<j. isl (outcome ?f args w i)" "outcome ?f args w j = Inr (r, dt)"
      "int j < max_retries s" "execution_count (metrics s) \<noteq> - 1"
  proof -
    have p: "process_function ?s0 = ?f" "0 + int j < max_retries ?s0"
      "execution_count (metrics ?s0) \<noteq> - 1"
      using h(3,4) by simp_all
    from execute_loop_succeeds[OF p(1) h(1,2) p(2,3), of None "[]"]
    obtain tr' where "fst (snd (execute args s w)) = tr'" "invocations tr' = invocations [] + Suc j"
      unfolding execute_def by auto
    then have "int (invocations (fst (snd (execute args s w)))) = int j + 1"
      by (simp add: invocations_simps)
    from execute_trace_of_count[OF this] show ?thesis by simp
  qed
  have fail: "fst (snd (execute args s w)) =
           concat (map (\<lambda>i. [Invoke, Sleep (0.1 * real_of_int i)]) [1..max_retries s - 1]) @ [Invoke]"
    if h: "\<forall>i < nat (max_retries s). isl (outcome ?f args w i)" "1 \<le> max_retries s"
  proof -
    have p: "process_function ?s0 = ?f" "0 + int (nat (max_retries s)) = max_retries ?s0"
      using h(2) by simp_all
    from execute_loop_all_fail[OF p(1) h(1) p(2), of None "[]"]
    obtain tr' where "fst (snd (execute args s w)) = tr'"
      "invocations tr' = invocations [] + nat (max_retries s)"
      unfolding execute_def by auto
    then have "int (invocations (fst (snd (execute args s w)))) = max_retries s"
      using h(2) by (simp add: invocations_simps)
    from execute_trace_of_count[OF this h(2)] show ?thesis .
  qed
  have shape: "\<exists>c. 0 \<le> c \<and> c \<le> max 0 (max_retries s)
          \<and> int (invocations (fst (snd (execute args s w)))) = c
          \<and> fst (snd (execute args s w)) =
              concat (map (\<lambda>i. Invoke # (if i < c then [Sleep (0.1 * real_of_int i)] else [])) [1..c])
          \<and> (c = max 0 (max_retries s) \<or> (\<exists>r. fst (execute args s w) = Inr (Some r)))"
    using execute_trace_shape[of s args w] unfolding backoff_trace_def .
  show ?thesis
    using succ fail shape by blast
qed

theorem execute_backoff_linear_witness:
  "isl (outcome (process_function retry_process) () 0 0)
   \<and> isl (outcome (process_function retry_process) () 0 1)
   \<and> outcome (process_function retry_process) () 0 2 = Inr (''success'', 0.25)
   \<and> int 2 < max_retries retry_process
   \<and> execution_count (metrics retry_process) \<noteq> - 1
   \<and> fst (snd (execute () retry_process 0)) = [Invoke, Sleep 0.1, Invoke, Sleep 0.2, Invoke]
   \<and> isl (outcome (process_function error_process) () 0 0)
   \<and> isl (outcome (process_function error_process) () 0 1)
   \<and> 1 \<le> max_retries error_process
   \<and> fst (snd (execute () error_process 0)) = [Invoke, Sleep 0.1, Invoke]"
proof -
  have h1: "\<forall>i<2. isl (outcome (process_function retry_process) () 0 i)"
    by (simp add: retry_process_fields failing_func_outcomes less_2_cases_iff)
  have h2: "outcome (process_function retry_process) () 0 2 = Inr (''success'', 0.25)"
    by (simp add: retry_process_fields failing_func_outcomes numeral_2_eq_2)
  have h3: "int 2 < max_retries retry_process"
    by (simp add: retry_process_fields)
  have h4: "execution_count (metrics retry_process) \<noteq> - 1"
    by (simp add: retry_process_fields ProcessMetrics_init_def)
  have q1: "\<forall>i < nat (max_retries error_process). isl (outcome (process_function error_process) () 0 i)"
    by (simp add: error_process_fields always_fails_outcome)
  have q2: "1 \<le> max_retries error_process"
    by (simp add: error_process_fields)
  have raw1: "fst (snd (execute () retry_process 0)) =
           concat (map (\<lambda>i. [Invoke, Sleep (0.1 * real_of_int i)]) [1..int 2]) @ [Invoke]"
    using execute_backoff_linear[where j=2 and s=retry_process and args="()" and w=0
        and r="''success''" and dt="0.25"] h1 h2 h3 h4
    by blast
  have raw2: "fst (snd (execute () error_process 0)) =
           concat (map (\<lambda>i. [Invoke, Sleep (0.1 * real_of_int i)]) [1..max_retries error_process - 1])
           @ [Invoke]"
    using execute_backoff_linear[where s=error_process and args="()" and w=0] q1 q2
    by blast
  have t1: "fst (snd (execute () retry_process 0)) = [Invoke, Sleep 0.1, Invoke, Sleep 0.2, Invoke]"
    unfolding raw1 by (simp add: upto_rec1)
  have t2: "fst (snd (execute () error_process 0)) = [Invoke, Sleep 0.1, Invoke]"
    unfolding raw2 by (simp add: error_process_fields upto_rec1)
  show ?thesis
    using h2 h3 h4 q2 t1 t2
    by (simp add: retry_process_fields failing_func_outcomes error_process_fields always_fails_outcome)
qed

section \<open>A supervisor without attempts\<close>

text \<open>
  Claim C4. The claim asks that \<open>max_retries \<le> 0\<close> be rejected or treated as one attempt.
  The constructor accepts every \<open>max_retries\<close>, and with \<open>max_retries \<le> 0\<close> the loop body of
  \<open>execute\<close> never runs: \<open>execute\<close> returns \<open>None\<close> without calling the task function and
  without raising, records nothing in the metrics and leaves the state \<open>RUNNING\<close>. The
  theorem states what the code does at such an input.
\<close>

theorem execute_without_attempt:
  "max_retries s \<le> 0 \<Longrightarrow> execute args s w = (Inr None, [], s\<lparr>state := RUNNING\<rparr>, w)"
  unfolding execute_def
  by (subst execute_loop.simps) (simp add: exhausted_def)

theorem execute_without_attempt_witness:
  "max_retries no_retries_process \<le> 0
   \<and> execute () no_retries_process 0 = (Inr None, [], no_retries_process\<lparr>state := RUNNING\<rparr>, 0)"
  using execute_without_attempt[of no_retries_process "()" 0]
  by (simp add: no_retries_process_def SuperProcess_init_def)

section \<open>The optimization trigger\<close>

text \<open>
  Claim C6. \<open>_should_optimize\<close> returns true if and only if \<open>execution_count \<ge> 10\<close> and
  \<open>success_count / execution_count < optimization_threshold\<close>; in particular it returns
  false whenever \<open>execution_count < 10\<close>, whatever the success rate.
\<close>

theorem should_optimize_iff:
  "should_optimize s =
     (10 \<le> execution_count (metrics s) \<and>
      real_of_int (success_count (metrics s)) / real_of_int (execution_count (metrics s))
        < optimization_threshold s)
   \<and> (execution_count (metrics s) < 10 \<longrightarrow> \<not> should_optimize s)"
  by (auto simp: should_optimize_def Let_def)

theorem should_optimize_iff_witness:
  "execution_count (metrics nine_failures) < 10
   \<and> real_of_int (success_count (metrics nine_failures)) / real_of_int (execution_count (metrics nine_failures))
        < optimization_threshold nine_failures
   \<and> \<not> should_optimize nine_failures"
  using should_optimize_iff[of nine_failures]
  by (simp add: nine_failures_def SuperProcess_init_def ProcessMetrics_init_def)

section \<open>The optimization hook\<close>

text \<open>
  Claim C10. \<open>_optimize\<close> adds exactly \<open>0.1\<close> to \<open>metrics.optimization_level\<close>, leaves the
  state as it was before the call, and changes nothing else: every other field of the
  metrics and of the supervisor is as before.
\<close>

theorem optimize_frame:
  "optimize s =
     s\<lparr>metrics := (metrics s)\<lparr>optimization_level := optimization_level (metrics s) + 0.1\<rparr>\<rparr>
   \<and> state (optimize s) = state s
   \<and> optimization_level (metrics (optimize s)) = optimization_level (metrics s) + 0.1
   \<and> execution_count (metrics (optimize s)) = execution_count (metrics s)
   \<and> total_runtime (metrics (optimize s)) = total_runtime (metrics s)
   \<and> average_runtime (metrics (optimize s)) = average_runtime (metrics s)
   \<and> success_count (metrics (optimize s)) = success_count (metrics s)
   \<and> error_count (metrics (optimize s)) = error_count (metrics s)
   \<and> last_execution_time (metrics (optimize s)) = last_execution_time (metrics s)
   \<and> metadata (metrics (optimize s)) = metadata (metrics s)"
  by (simp add: optimize_def Let_def)

section \<open>Registration\<close>

lemma update_new_key:
  "k \<notin> fst ` set al \<Longrightarrow> AList.update k v al = al @ [(k, v)]"
  by (induction al) auto

text \<open>
  Claim C7. Registering a supervisor whose name is already a key of the manager raises the
  duplicate-name error (a \<open>ValueError\<close> in this code) and leaves the manager as it was, so
  the first registration stays. Registering a fresh name succeeds, appends the entry, makes
  the name resolve to the new supervisor and changes the lookup of no other name.
\<close>

theorem register_duplicate_name:
  "(name p \<in> fst ` set (processes mgr) \<longrightarrow>
      register mgr p = (Inl (ValueError (''Process '' @ name p @ '' already registered'')), mgr))
   \<and> (name p \<notin> fst ` set (processes mgr) \<longrightarrow>
        fst (register mgr p) = Inr ()
        \<and> processes (snd (register mgr p)) = processes mgr @ [(name p, p)]
        \<and> get_process (snd (register mgr p)) (name p) = Some p
        \<and> (\<forall>nm. nm \<noteq> name p \<longrightarrow> get_process (snd (register mgr p)) nm = get_process mgr nm))"
proof -
  let ?al = "AList.update (name p) p (processes mgr)"
  have m: "map_of ?al = (map_of (processes mgr))(name p \<mapsto> p)"
    by (rule update_conv')
  have dup: "register mgr p = (Inl (ValueError (''Process '' @ name p @ '' already registered'')), mgr)"
    if "name p \<in> fst ` set (processes mgr)"
    using that by (simp add: register_def)
  have fresh: "register mgr p = (Inr (), mgr\<lparr>processes := ?al\<rparr>)"
    if "name p \<notin> fst ` set (processes mgr)"
    using that by (simp add: register_def)
  have app: "?al = processes mgr @ [(name p, p)]"
    if "name p \<notin> fst ` set (processes mgr)"
    using that by (rule update_new_key)
  have look: "get_process (mgr\<lparr>processes := ?al\<rparr>) (name p) = Some p"
    "\<forall>nm. nm \<noteq> name p \<longrightarrow> get_process (mgr\<lparr>processes := ?al\<rparr>) nm = get_process mgr nm"
    by (simp_all add: get_process_def m)
  show ?thesis
  proof (cases "name p \<in> fst ` set (processes mgr)")
    case True
    then show ?thesis using dup[OF True] by simp
  next
    case False
    note r = fresh[OF False, unfolded app[OF False]]
    show ?thesis
      unfolding r using False look[unfolded app[OF False]] by simp
  qed
qed

theorem register_duplicate_name_witness:
  "name retry_process \<notin> fst ` set (processes (SuperProcessManager_init :: (unit, nat, string, unit) SuperProcessManager))
   \<and> fst (register SuperProcessManager_init retry_process) = Inr ()
   \<and> get_process (snd (register SuperProcessManager_init retry_process)) ''retry_process'' = Some retry_process
   \<and> name duplicate_process \<in> fst ` set (processes (snd (register SuperProcessManager_init retry_process)))
   \<and> fst (register (snd (register SuperProcessManager_init retry_process)) duplicate_process)
       = Inl (ValueError ''Process retry_process already registered'')
   \<and> snd (register (snd (register SuperProcessManager_init retry_process)) duplicate_process)
       = snd (register SuperProcessManager_init retry_process)
   \<and> get_process (snd (register (snd (register SuperProcessManager_init retry_process)) duplicate_process))
       ''retry_process'' = Some retry_process"
proof -
  have n: "name retry_process = ''retry_process''" "name duplicate_process = ''retry_process''"
    by (simp_all add: retry_process_def duplicate_process_def SuperProcess_init_def)
  have e: "processes (SuperProcessManager_init :: (unit, nat, string, unit) SuperProcessManager) = []"
    by (simp add: SuperProcessManager_init_def)
  show ?thesis
    using register_duplicate_name[of retry_process SuperProcessManager_init]
      register_duplicate_name[of duplicate_process "snd (register SuperProcessManager_init retry_process)"]
    by (simp add: n e)
qed

section \<open>The summary\<close>



section \<open>Stopping\<close>






section \<open>The invariant of the metrics\<close>

lemma metrics_ok_init: "metrics_ok ProcessMetrics_init"
  by (simp add: metrics_ok_def ProcessMetrics_init_def)

lemma update_execution_pres:
  assumes "metrics_ok m"
  shows "metrics_ok (snd (update_execution m rt ok))"
proof -
  have "execution_count m \<noteq> - 1" using assms by (simp add: metrics_ok_def)
  from update_execution_ok[OF this, of rt ok] show ?thesis
    using assms by (simp add: metrics_ok_def)
qed

lemma optimize_pres: "metrics_ok (metrics s) \<Longrightarrow> metrics_ok (metrics (optimize s))"
  by (simp add: optimize_def Let_def metrics_ok_def)

lemma attempt_pres:
  assumes "metrics_ok (metrics s)"
  shows "metrics_ok (metrics (fst (snd (attempt args s w))))"
proof -
  define s1 where "s1 = (if auto_optimize s \<and> should_optimize s then optimize s else s)"
  have ok1: "metrics_ok (metrics s1)"
    using assms by (simp add: s1_def optimize_pres)
  have up: "metrics_ok (snd (update_execution (metrics s1) rt True))" for rt
    by (rule update_execution_pres[OF ok1])
  obtain out w' where pf: "process_function s1 args w = (out, w')"
    by (cases "process_function s1 args w") auto
  show ?thesis
  proof (cases out)
    case (Inl e)
    then have "attempt args s w = (Inl e, s1, w')"
      unfolding attempt_def s1_def[symmetric] Let_def using pf by simp
    then show ?thesis using ok1 by simp
  next
    case (Inr p)
    obtain r rt where p: "p = (r, rt)" by (cases p) auto
    obtain u m' where ue: "update_execution (metrics s1) rt True = (u, m')"
      by (cases "update_execution (metrics s1) rt True") auto
    have ok': "metrics_ok m'" using up[of rt] ue by simp
    have "metrics (fst (snd (attempt args s w))) = m'"
      unfolding attempt_def s1_def[symmetric] Let_def using pf Inr p ue
      by (cases u) simp_all
    then show ?thesis using ok' by simp
  qed
qed

lemma exhausted_pres:
  assumes "metrics_ok (metrics s)"
  shows "metrics_ok (metrics (snd (exhausted le s)))"
proof (cases le)
  case None
  then show ?thesis using assms by (simp add: exhausted_def)
next
  case (Some e)
  show ?thesis
  proof (cases "truth_value e")
    case False
    then show ?thesis using assms Some by (simp add: exhausted_def)
  next
    case True
    obtain u m' where ue: "update_execution (metrics s) 0 False = (u, m')"
      by (cases "update_execution (metrics s) 0 False") auto
    have ok': "metrics_ok m'" using update_execution_pres[OF assms, of 0 False] ue by simp
    have "metrics (snd (exhausted le s)) = m'"
      using Some True ue by (cases u) (simp_all add: exhausted_def)
    then show ?thesis using ok' by simp
  qed
qed

lemma execute_loop_pres:
  "metrics_ok (metrics s) \<Longrightarrow>
     metrics_ok (metrics (fst (snd (snd (execute_loop args retries le tr s w)))))"
proof (induction "nat (max_retries s - retries)" arbitrary: retries le tr s w)
  case 0
  then have "\<not> retries < max_retries s" by simp
  then have "execute_loop args retries le tr s w =
      (fst (exhausted le s), tr, snd (exhausted le s), w)"
    by (subst execute_loop.simps) (simp add: case_prod_beta)
  then show ?case using exhausted_pres[OF "0.prems"] by simp
next
  case (Suc n)
  then have lt: "retries < max_retries s" by simp
  obtain res s' w' where a: "attempt args s w = (res, s', w')"
    by (cases "attempt args s w") auto
  have mr: "max_retries s' = max_retries s"
    by (rule attempt_max_retries[OF a])
  have ok': "metrics_ok (metrics s')"
    using attempt_pres[OF Suc.prems, of args w] a by simp
  show ?case
  proof (cases res)
    case (Inr result)
    have "execute_loop args retries le tr s w = (Inr (Some result), tr @ [Invoke], s', w')"
      using lt a Inr by (subst execute_loop.simps) simp
    then show ?thesis using ok' by simp
  next
    case (Inl e)
    let ?tr1 = "tr @ [Invoke] @
       (if retries + 1 < max_retries s' then [Sleep (0.1 * real_of_int (retries + 1))] else [])"
    have unfold: "execute_loop args retries le tr s w =
        execute_loop args (retries + 1) (Some e) ?tr1 s' w'"
      using lt a Inl by (subst execute_loop.simps) (simp add: Let_def)
    have n: "n = nat (max_retries s' - (retries + 1))"
      using Suc.hyps(2) mr by simp
    show ?thesis
      unfolding unfold by (rule Suc.hyps(1)[OF n ok'])
  qed
qed

lemma execute_pres:
  "metrics_ok (metrics s) \<Longrightarrow> metrics_ok (metrics (fst (snd (snd (execute args s w)))))"
  unfolding execute_def by (rule execute_loop_pres) simp

lemma apply_operation_pres:
  assumes "metrics_ok (metrics (fst c))"
  shows "metrics_ok (metrics (fst (apply_operation op c)))"
proof -
  obtain s w where c: "c = (s, w)" by (cases c) auto
  have ok: "metrics_ok (metrics s)" using assms c by simp
  show ?thesis
  proof (cases op)
    case (Execute args)
    then show ?thesis using execute_pres[OF ok, of args w] c
      by (simp add: case_prod_beta)
  next
    case (StartContinuous can_start ival args)
    then show ?thesis using ok c by (simp add: start_continuous_def Let_def)
  next
    case ContinuousCycle
    then show ?thesis using ok c execute_pres[OF ok]
      by (simp add: run_continuous_cycle_def case_prod_beta split: option.splits)
  next
    case Pause
    then show ?thesis using ok c by (simp add: pause_def)
  next
    case Resume
    then show ?thesis using ok c by (simp add: resume_def)
  next
    case (Stop cl exited)
    then show ?thesis using ok c
      by (simp add: stop_def Let_def split: option.splits sum.splits)
  next
    case ResetMetrics
    then show ?thesis using c by (simp add: reset_metrics_def metrics_ok_init)
  next
    case Optimize
    then show ?thesis using optimize_pres[OF ok] c by simp
  qed
qed

lemma run_operations_pres:
  "metrics_ok (metrics (fst c)) \<Longrightarrow> metrics_ok (metrics (fst (run_operations ops c)))"
  unfolding run_operations_def
  by (induction ops arbitrary: c) (simp_all add: apply_operation_pres)

text \<open>
  Claim C3. Starting from a freshly constructed supervisor (zero-valued metrics), after any
  sequence of operations \<open>execution_count = success_count + error_count\<close> holds, and
  whenever \<open>execution_count > 0\<close> the stored \<open>average_runtime\<close> is
  \<open>total_runtime / execution_count\<close>. The second part also holds after a single
  \<open>update_execution\<close> on arbitrary metrics: if the count it leaves is positive, the average
  it leaves is the total divided by the count.
\<close>

theorem metrics_invariant:
  "(let m = metrics (fst (run_operations ops
                (SuperProcess_init nm f ao mr thr :: ('a, 'w, 'r, 'v) SuperProcess, w)))
    in execution_count m = success_count m + error_count m
       \<and> (0 < execution_count m \<longrightarrow>
            average_runtime m = total_runtime m / real_of_int (execution_count m)))
   \<and> (let m' = snd (update_execution (m0 :: 'v ProcessMetrics) rt ok)
      in 0 < execution_count m' \<longrightarrow>
           average_runtime m' = total_runtime m' / real_of_int (execution_count m'))"
proof -
  define M where "M = metrics (fst (run_operations ops
                (SuperProcess_init nm f ao mr thr :: ('a, 'w, 'r, 'v) SuperProcess, w)))"
  have "metrics_ok (metrics (fst (SuperProcess_init nm f ao mr thr :: ('a, 'w, 'r, 'v) SuperProcess, w)))"
    by (simp add: SuperProcess_init_def metrics_ok_init)
  from run_operations_pres[OF this, of ops]
  have ok: "metrics_ok M" by (simp add: M_def)
  have a: "execution_count M = success_count M + error_count M"
    using ok by (simp add: metrics_ok_def)
  have b: "0 < execution_count M \<longrightarrow>
      average_runtime M = total_runtime M / real_of_int (execution_count M)"
    using ok by (simp add: metrics_ok_def)
  have c: "0 < execution_count (snd (update_execution m0 rt ok)) \<longrightarrow>
        average_runtime (snd (update_execution m0 rt ok)) =
          total_runtime (snd (update_execution m0 rt ok))
          / real_of_int (execution_count (snd (update_execution m0 rt ok)))"
    by (simp add: update_execution_def Let_def)
  show ?thesis
    unfolding Let_def using a[unfolded M_def] b[unfolded M_def] c by blast
qed

theorem metrics_invariant_witness:
  "0 < execution_count (metrics (fst (run_operations [Execute (), Execute ()]
         (SuperProcess_init ''metrics_process'' timed_func True 3 0.8 :: (unit, nat, string, unit) SuperProcess, 0))))
   \<and> average_runtime (metrics (fst (run_operations [Execute (), Execute ()]
         (SuperProcess_init ''metrics_process'' timed_func True 3 0.8 :: (unit, nat, string, unit) SuperProcess, 0))))
       = total_runtime (metrics (fst (run_operations [Execute (), Execute ()]
         (SuperProcess_init ''metrics_process'' timed_func True 3 0.8 :: (unit, nat, string, unit) SuperProcess, 0))))
         / real_of_int (execution_count (metrics (fst (run_operations [Execute (), Execute ()]
         (SuperProcess_init ''metrics_process'' timed_func True 3 0.8 :: (unit, nat, string, unit) SuperProcess, 0)))))
   \<and> execution_count (metrics (fst (run_operations [Execute (), Execute ()]
         (SuperProcess_init ''metrics_process'' timed_func True 3 0.8 :: (unit, nat, string, unit) SuperProcess, 0)))) = 2
   \<and> success_count (metrics (fst (run_operations [Execute (), Execute ()]
         (SuperProcess_init ''metrics_process'' timed_func True 3 0.8 :: (unit, nat, string, unit) SuperProcess, 0)))) = 2
   \<and> error_count (metrics (fst (run_operations [Execute (), Execute ()]
         (SuperProcess_init ''metrics_process'' timed_func True 3 0.8 :: (unit, nat, string, unit) SuperProcess, 0)))) = 0
   \<and> 0 < execution_count (snd (update_execution (ProcessMetrics_init :: unit ProcessMetrics) 0.01 True))
   \<and> average_runtime (snd (update_execution (ProcessMetrics_init :: unit ProcessMetrics) 0.01 True)) = 0.01"
proof -
  define M where "M = metrics (fst (run_operations [Execute (), Execute ()]
         (SuperProcess_init ''metrics_process'' timed_func True 3 0.8 :: (unit, nat, string, unit) SuperProcess, 0)))"
  have ev: "execution_count M = 2" "success_count M = 2" "error_count M = 0"
    unfolding M_def by code_simp+
  define U where "U = snd (update_execution (ProcessMetrics_init :: unit ProcessMetrics) 0.01 True)"
  have up: "execution_count U = 1" "total_runtime U = 0.01"
    unfolding U_def by (simp_all add: update_execution_def ProcessMetrics_init_def Let_def)
  note th = metrics_invariant[of "[Execute (), Execute ()]" "''metrics_process''" timed_func True 3 "0.8" 0
        "ProcessMetrics_init :: unit ProcessMetrics" "0.01" True, unfolded Let_def, folded M_def U_def]
  show ?thesis
    unfolding M_def[symmetric] U_def[symmetric] using th by (simp add: ev up)
qed

end
